theory Spec2Isabelle
  imports Main "HOL-Library.Multiset" "HOL-Library.List_Lexorder" "HOL-Library.Char_ord"
begin

section \<open>Data model (types.ts)\<close>

text \<open>
  \<^verbatim>\<open>DayOfWeek\<close> is a union of five string literals; \<^verbatim>\<open>day_name\<close> gives the string
  each one is at run time. \<^verbatim>\<open>TimeSlot\<close> and room names are plain strings. A JavaScript
  number that the input widgets produce is an integer, so numbers are \<open>int\<close>.
\<close>

datatype DayOfWeek = Monday | Tuesday | Wednesday | Thursday | Friday

fun day_name :: "DayOfWeek \<Rightarrow> string" where
  "day_name Monday = ''Monday''"
| "day_name Tuesday = ''Tuesday''"
| "day_name Wednesday = ''Wednesday''"
| "day_name Thursday = ''Thursday''"
| "day_name Friday = ''Friday''"

type_synonym TimeSlot = string

text \<open>
  \<^verbatim>\<open>Grade\<close> is declared as \<^verbatim>\<open>1 | 2 | 3 | 4 | 5\<close>, but \<^verbatim>\<open>getGradeFromClassName\<close> casts the
  result of \<^verbatim>\<open>parseInt\<close> on one digit to it, so at run time a grade is any of 0..9.
\<close>

type_synonym Grade = nat

text \<open>
  An object is an association list in key order; a lookup reads the first entry of a
  key. \<^verbatim>\<open>GradeCounts\<close> has integer-like keys, which JavaScript enumerates in
  ascending order.
\<close>

type_synonym GradeCounts = "(Grade \<times> int) list"
type_synonym TimetableSlot = "string list"
type_synonym TimetableDay = "(TimeSlot \<times> TimetableSlot) list"
type_synonym TimetableData = "(DayOfWeek \<times> TimetableDay) list"
type_synonym MultiRoomTimetable = "(string \<times> TimetableData) list"

text \<open>The \<^verbatim>\<open>from\<close> and \<^verbatim>\<open>to\<close> of \<^verbatim>\<open>DraggedItem\<close>.\<close>

record Loc =
  room :: string
  day :: DayOfWeek
  slot :: TimeSlot

text \<open>
  The state cells of \<^verbatim>\<open>App\<close> (\<^verbatim>\<open>useState\<close>), but for the dragged item, which none of
  the handlers below reads or writes. The type of the timetable cell is a parameter: the drag-and-drop handlers read it at its declared type
  \<open>MultiRoomTimetable\<close>, the generation handler only ever replaces it, by
  \<^verbatim>\<open>null\<close> or by the parsed response it has cast to that type unchecked.
\<close>

record 'tt AppState =
  gradeCounts :: GradeCounts
  maxConcurrentClasses :: int
  sessionsPerDay :: int
  numberOfRooms :: int
  includedDays :: "DayOfWeek list"
  timetable :: "'tt option"
  isLoading :: bool
  error :: "string option"

section \<open>Numbers in template strings\<close>

definition digit_char :: "nat \<Rightarrow> char" where
  "digit_char n = ''0123456789'' ! (n mod 10)"

fun string_of_nat :: "nat \<Rightarrow> string" where
  "string_of_nat n =
     (if n < 10 then [digit_char n] else string_of_nat (n div 10) @ [digit_char (n mod 10)])"

declare string_of_nat.simps [simp del]

text \<open>What \<^verbatim>\<open>${n}\<close> gives for an integer \<^verbatim>\<open>n\<close>.\<close>

definition string_of_int :: "int \<Rightarrow> string" where
  "string_of_int i =
     (if i < 0 then CHR ''-'' # string_of_nat (nat (- i)) else string_of_nat (nat i))"

definition dquote :: string where
  "dquote = [CHR 0x22]"

definition newline :: string where
  "newline = [CHR 0x0A]"

text \<open>\<^verbatim>\<open>xs.join(sep)\<close> on an array of strings.\<close>

fun join :: "string \<Rightarrow> string list \<Rightarrow> string" where
  "join sep [] = []"
| "join sep [x] = x"
| "join sep (x # y # ys) = x @ sep @ join sep (y # ys)"

section \<open>Grade of a class name (App.tsx, TimetableDisplay.tsx)\<close>

text \<open>
  \<^verbatim>\<open>className.match(/Grade (\d)/)\<close>: the regular expression is tried at every position
  from the left, and the first position where it matches decides. \<^verbatim>\<open>\d\<close> is an ASCII
  digit; \<^verbatim>\<open>match[1]\<close> is that one character, never empty, and \<^verbatim>\<open>parseInt\<close> reads it.
\<close>

definition is_digit :: "char \<Rightarrow> bool" where
  "is_digit c = (c \<in> set ''0123456789'')"

definition digit_value :: "char \<Rightarrow> nat" where
  "digit_value c = of_char c - 48"

fun matchGradeHere :: "string \<Rightarrow> Grade option" where
  "matchGradeHere s =
     (if take 6 s = ''Grade '' then
        (case drop 6 s of
           [] \<Rightarrow> None
         | d # _ \<Rightarrow> if is_digit d then Some (digit_value d) else None)
      else None)"

fun getGradeFromClassName :: "string \<Rightarrow> Grade option" where
  "getGradeFromClassName [] = None"
| "getGradeFromClassName (c # cs) =
     (case matchGradeHere (c # cs) of
        Some g \<Rightarrow> Some g
      | None \<Rightarrow> getGradeFromClassName cs)"

section \<open>Moving a class (App.tsx, handleMoveClass)\<close>

text \<open>\<^verbatim>\<open>tt[room]?.[day]?.[slot]\<close>: \<open>None\<close> is \<^verbatim>\<open>undefined\<close>.\<close>

definition lookup_slot :: "MultiRoomTimetable \<Rightarrow> Loc \<Rightarrow> TimetableSlot option" where
  "lookup_slot tt l =
     (case map_of tt (room l) of
        None \<Rightarrow> None
      | Some days \<Rightarrow>
          (case map_of days (day l) of
             None \<Rightarrow> None
           | Some slots \<Rightarrow> map_of slots (slot l)))"

text \<open>
  A mutation of the value stored under a key that is present: the entry keeps its place,
  as a property of an object does.
\<close>

fun modify :: "'k \<Rightarrow> ('v \<Rightarrow> 'v) \<Rightarrow> ('k \<times> 'v) list \<Rightarrow> ('k \<times> 'v) list" where
  "modify k f [] = []"
| "modify k f ((k', v) # ps) =
     (if k = k' then (k', f v) # ps else (k', v) # modify k f ps)"

text \<open>The array at \<^verbatim>\<open>tt[room][day][slot]\<close> mutated in place by \<open>f\<close>.\<close>

definition modify_slot ::
  "Loc \<Rightarrow> (TimetableSlot \<Rightarrow> TimetableSlot) \<Rightarrow> MultiRoomTimetable \<Rightarrow> MultiRoomTimetable" where
  "modify_slot l f tt = modify (room l) (modify (day l) (modify (slot l) f)) tt"

definition fullMessage :: "string \<Rightarrow> Loc \<Rightarrow> int \<Rightarrow> string" where
  "fullMessage className to mx =
     ''Cannot move '' @ dquote @ className @ dquote @ ''. The '' @ dquote @ slot to @ dquote
     @ '' slot in '' @ room to @ '' on '' @ day_name (day to) @ '' is full (max ''
     @ string_of_int mx @ '' classes).''"

definition grade12Message :: string where
  "grade12Message = ''Cannot move: Grade 1 and Grade 2 classes cannot be in the same slot.''"

definition grade34Message :: string where
  "grade34Message = ''Cannot move: Grade 3 and Grade 4 classes cannot be in the same slot.''"

text \<open>
  The function given to \<^verbatim>\<open>setTimetable\<close>, for a timetable that is not \<^verbatim>\<open>null\<close>. It returns
  the next timetable and what it did to the error cell: \<open>None\<close> for no call of
  \<^verbatim>\<open>setError\<close>, \<open>Some e\<close> for \<^verbatim>\<open>setError(e)\<close>. \<^verbatim>\<open>JSON.parse(JSON.stringify(tt))\<close> is a
  copy, \<^verbatim>\<open>findIndex\<close> with \<^verbatim>\<open>splice\<close> removes the first occurrence, and \<^verbatim>\<open>sort()\<close> orders
  strings by their code units, here the lexicographic order of \<open>char list\<close>.
\<close>

definition moveClass ::
  "int \<Rightarrow> string \<Rightarrow> Loc \<Rightarrow> Loc \<Rightarrow> MultiRoomTimetable
     \<Rightarrow> MultiRoomTimetable \<times> string option option" where
  "moveClass mx className from to currentTimetable =
     (case lookup_slot currentTimetable to of
        None \<Rightarrow> (currentTimetable, None)
      | Some toSlotClasses \<Rightarrow>
          if className \<in> set toSlotClasses then (currentTimetable, None)
          else if int (length toSlotClasses) \<ge> mx then
            (currentTimetable, Some (Some (fullMessage className to mx)))
          else
            let movedGrade = getGradeFromClassName className;
                destinationGrades = map getGradeFromClassName toSlotClasses
            in
              if (movedGrade = Some 1 \<and> Some 2 \<in> set destinationGrades)
                 \<or> (movedGrade = Some 2 \<and> Some 1 \<in> set destinationGrades)
              then (currentTimetable, Some (Some grade12Message))
              else if (movedGrade = Some 3 \<and> Some 4 \<in> set destinationGrades)
                 \<or> (movedGrade = Some 4 \<and> Some 3 \<in> set destinationGrades)
              then (currentTimetable, Some (Some grade34Message))
              else
                (case lookup_slot currentTimetable from of
                   None \<Rightarrow> (currentTimetable, None)
                 | Some fromSlotClasses \<Rightarrow>
                     if className \<in> set fromSlotClasses then
                       (modify_slot to (\<lambda>cs. sort (cs @ [className]))
                          (modify_slot from (remove1 className) currentTimetable),
                        Some None)
                     else (currentTimetable, None)))"

definition handleMoveClass ::
  "MultiRoomTimetable AppState \<Rightarrow> string \<Rightarrow> Loc \<Rightarrow> Loc \<Rightarrow> MultiRoomTimetable AppState" where
  "handleMoveClass st className from to =
     (if room from = room to \<and> day from = day to \<and> slot from = slot to then st
      else
        (case timetable st of
           None \<Rightarrow> st
         | Some currentTimetable \<Rightarrow>
             (case moveClass (maxConcurrentClasses st) className from to currentTimetable of
                (tt', None) \<Rightarrow> st\<lparr>timetable := Some tt'\<rparr>
              | (tt', Some e) \<Rightarrow> st\<lparr>timetable := Some tt', error := e\<rparr>)))"

text \<open>Every class entry of a timetable, slot after slot.\<close>

definition day_classes :: "TimetableDay \<Rightarrow> string list" where
  "day_classes slots = concat (map snd slots)"

definition room_classes :: "TimetableData \<Rightarrow> string list" where
  "room_classes days = concat (map (\<lambda>p. day_classes (snd p)) days)"

definition all_classes :: "MultiRoomTimetable \<Rightarrow> string list" where
  "all_classes tt = concat (map (\<lambda>p. room_classes (snd p)) tt)"


section \<open>Drop validity while dragging (TimetableDisplay.tsx, handleDragOver)\<close>

definition coSchedulingConflict :: "Grade option \<Rightarrow> Grade option list \<Rightarrow> bool" where
  "coSchedulingConflict movedGrade destinationGrades =
     (let hasGrade1 = Some 1 \<in> set destinationGrades;
          hasGrade2 = Some 2 \<in> set destinationGrades;
          hasGrade3 = Some 3 \<in> set destinationGrades;
          hasGrade4 = Some 4 \<in> set destinationGrades
      in (movedGrade = Some 1 \<and> hasGrade2) \<or> (movedGrade = Some 2 \<and> hasGrade1)
         \<or> (movedGrade = Some 3 \<and> hasGrade4) \<or> (movedGrade = Some 4 \<and> hasGrade3))"

definition isValidDrop :: "int \<Rightarrow> string \<Rightarrow> TimetableSlot \<Rightarrow> bool" where
  "isValidDrop mx className destinationSlot =
     (let atCapacity = int (length destinationSlot) \<ge> mx;
          movedGrade = getGradeFromClassName className;
          destinationGrades = map getGradeFromClassName destinationSlot
      in \<not> atCapacity \<and> \<not> coSchedulingConflict movedGrade destinationGrades)"

section \<open>Constants and the initial state\<close>

text \<open>
  Modelled from the spec: \<^verbatim>\<open>constants.ts\<close>, which exports \<^verbatim>\<open>GRADES\<close> and \<^verbatim>\<open>DAYS_OF_WEEK\<close>, is
  not among the sources. The specification gives the grade identifiers as the integers 1
  to 5 and the weekdays as Monday to Friday, in calendar order.
\<close>

definition GRADES :: "Grade list" where
  "GRADES = [1, 2, 3, 4, 5]"

definition DAYS_OF_WEEK :: "DayOfWeek list" where
  "DAYS_OF_WEEK = [Monday, Tuesday, Wednesday, Thursday, Friday]"

definition initialState :: "'tt AppState" where
  "initialState =
     \<lparr>gradeCounts = map (\<lambda>g. (g, 0)) GRADES,
      maxConcurrentClasses = 3,
      sessionsPerDay = 2,
      numberOfRooms = 1,
      includedDays = DAYS_OF_WEEK,
      timetable = None,
      isLoading = False,
      error = None\<rparr>"

section \<open>Toggling a day (App.tsx, handleDayToggle)\<close>

text \<open>\<^verbatim>\<open>xs.indexOf(x)\<close>: the first index of \<open>x\<close>, or \<open>-1\<close>.\<close>

fun indexOf :: "'a list \<Rightarrow> 'a \<Rightarrow> int" where
  "indexOf [] x = - 1"
| "indexOf (y # ys) x =
     (if y = x then 0 else (let i = indexOf ys x in if i < 0 then - 1 else i + 1))"

text \<open>
  \<^verbatim>\<open>newDays.sort((a, b) => DAYS_OF_WEEK.indexOf(a) - DAYS_OF_WEEK.indexOf(b))\<close> is a stable
  sort by the index in \<^verbatim>\<open>DAYS_OF_WEEK\<close>.
\<close>

definition toggleDay :: "DayOfWeek list \<Rightarrow> DayOfWeek \<Rightarrow> DayOfWeek list" where
  "toggleDay prev d =
     (let newDays = (if d \<in> set prev then filter (\<lambda>x. x \<noteq> d) prev else prev @ [d])
      in sort_key (indexOf DAYS_OF_WEEK) newDays)"

definition handleDayToggle :: "'tt AppState \<Rightarrow> DayOfWeek \<Rightarrow> 'tt AppState" where
  "handleDayToggle st d = st\<lparr>includedDays := toggleDay (includedDays st) d\<rparr>"

section \<open>Derived values (App.tsx)\<close>

definition totalClasses :: "'tt AppState \<Rightarrow> int" where
  "totalClasses st = foldl (\<lambda>sum count. sum + count) 0 (map snd (gradeCounts st))"

definition maxPossibleClasses :: "'tt AppState \<Rightarrow> int" where
  "maxPossibleClasses st =
     maxConcurrentClasses st * int (length (includedDays st)) * sessionsPerDay st
       * numberOfRooms st"

definition canGenerate :: "'tt AppState \<Rightarrow> bool" where
  "canGenerate st =
     (totalClasses st > 0 \<and> length (includedDays st) > 0
      \<and> totalClasses st \<le> maxPossibleClasses st \<and> \<not> isLoading st)"

section \<open>The request (geminiService.ts)\<close>

text \<open>
  The shape descriptor: \<^verbatim>\<open>{type: Type.STRING}\<close>, \<^verbatim>\<open>{type: Type.ARRAY, items}\<close> and
  \<^verbatim>\<open>{type: Type.OBJECT, properties, required}\<close>.
\<close>

datatype Schema =
    STRING
  | ARRAY Schema
  | OBJECT (properties: "(string \<times> Schema) list") (required: "string list")

text \<open>
  \<^verbatim>\<open>obj[k] = v\<close> on an object whose keys are not integer-like: a key that is present
  keeps its place and takes the new value, a new key goes last.
\<close>

fun assign :: "'k \<Rightarrow> 'v \<Rightarrow> ('k \<times> 'v) list \<Rightarrow> ('k \<times> 'v) list" where
  "assign k v [] = [(k, v)]"
| "assign k v ((k', v') # ps) = (if k = k' then (k', v) # ps else (k', v') # assign k v ps)"

text \<open>
  The two loops \<^verbatim>\<open>for (let i = 1; i <= n; i++)\<close> run over \<open>[1..n]\<close>; each step sets a
  property and pushes the name.
\<close>

definition generateSingleRoomResponseSchema :: "int \<Rightarrow> DayOfWeek list \<Rightarrow> Schema" where
  "generateSingleRoomResponseSchema sessions days =
     (let (timeSlotProperties, requiredSlots) =
            foldl (\<lambda>(props, req) i.
                     let slotName = ''Slot '' @ string_of_int i
                     in (assign slotName (ARRAY STRING) props, req @ [slotName]))
                  ([], []) [1..sessions];
          daySchema = OBJECT timeSlotProperties requiredSlots;
          timetableProperties =
            foldl (\<lambda>props d. assign (day_name d) daySchema props) [] days
      in OBJECT timetableProperties (map day_name days))"

definition generateResponseSchema :: "int \<Rightarrow> DayOfWeek list \<Rightarrow> int \<Rightarrow> Schema" where
  "generateResponseSchema sessions days rooms =
     (let singleRoomSchema = generateSingleRoomResponseSchema sessions days;
          (roomProperties, requiredRooms) =
            foldl (\<lambda>(props, req) i.
                     let roomName = ''Room '' @ string_of_int i
                     in (assign roomName singleRoomSchema props, req @ [roomName]))
                  ([], []) [1..rooms]
      in OBJECT roomProperties requiredRooms)"

text \<open>
  The three literal stretches of the template of \<^verbatim>\<open>generatePrompt\<close>. The parameters
  \<open>counts\<close>, \<open>mx\<close>, \<open>sessions\<close>, \<open>days\<close> and \<open>rooms\<close> are the function's \<^verbatim>\<open>gradeCounts\<close>,
  \<^verbatim>\<open>maxConcurrentClasses\<close>, \<^verbatim>\<open>sessionsPerDay\<close>, \<^verbatim>\<open>includedDays\<close> and \<^verbatim>\<open>numberOfRooms\<close>.
\<close>

definition promptIntro :: "int \<Rightarrow> string \<Rightarrow> string" where
  "promptIntro rooms classList =
     newline @ ''    You are an expert school timetable scheduler. Your task is ''
     @ ''to create a weekly timetable for a primary school with grades 1 ''
     @ ''through 5, distributing classes across '' @ string_of_int rooms
     @ '' available rooms.'' @ newline @ newline @ ''    Here are the constraints:'' @ newline
     @ ''    1.  **Classes to Schedule:**'' @ newline @ ''        '' @ classList @ newline
     @ ''        (When you create the schedule, name the classes like '' @ dquote
     @ ''Grade 1 - A'' @ dquote @ '', '' @ dquote @ ''Grade 1 - B'' @ dquote @ '', '' @ dquote
     @ ''Grade 2 - A'' @ dquote @ '', etc.)'' @ newline @ newline
     @ ''    2.  **Schedule Structure:**'' @ newline @ ''        - There are ''
     @ string_of_int rooms @ '' rooms available, named '' @ dquote @ ''Room 1'' @ dquote
     @ '', '' @ dquote @ ''Room 2'' @ dquote @ '', etc.'' @ newline
     @ ''        - The week includes only the following days: ''"

definition promptSlotsIntro :: "int \<Rightarrow> string" where
  "promptSlotsIntro sessions =
     ''.'' @ newline @ ''        - There are '' @ string_of_int sessions
     @ '' available time slots each day: ''"

definition promptRules :: "int \<Rightarrow> string" where
  "promptRules mx =
     ''.'' @ newline @ newline @ ''    3.  **Scheduling Rules:**'' @ newline
     @ ''        - Every single class implied by the counts above must ''
     @ ''be scheduled exactly once across all rooms.'' @ newline
     @ ''        - In any single time slot (e.g., Room 1, Monday Slot ''
     @ ''1), you cannot schedule more than '' @ string_of_int mx
     @ '' classes in total.'' @ newline
     @ ''        - **Crucially, Grade 1 and Grade 2 classes must NEVER ''
     @ ''be scheduled in the same time slot together in the same room.**'' @ newline
     @ ''        - **Similarly, Grade 3 and Grade 4 classes must NEVER ''
     @ ''be scheduled in the same time slot together in the same room.**'' @ newline
     @ ''        - **VERY IMPORTANT ROOM ALLOCATION RULE: You must fill ''
     @ ''up the schedule for '' @ dquote @ ''Room 1'' @ dquote
     @ '' as much as possible before assigning any classes to '' @ dquote @ ''Room 2'' @ dquote
     @ ''. Then, fill '' @ dquote @ ''Room 2'' @ dquote @ '' before '' @ dquote @ ''Room 3''
     @ dquote @ '', and so on. Follow this sequential filling order strictly.**'' @ newline
     @ ''        - Distribute the classes as evenly as possible ''
     @ ''throughout the week to balance the school's activity, while ''
     @ ''respecting all other rules.'' @ newline @ newline
     @ ''    Please provide the generated timetable in the specified ''
     @ ''JSON format. The output should be a JSON object where the keys ''
     @ ''are the room names (e.g., '' @ dquote @ ''Room 1'' @ dquote @ '', '' @ dquote
     @ ''Room 2'' @ dquote @ '').'' @ newline @ ''  ''"

text \<open>
  \<^verbatim>\<open>Array.from({ length: n }, (_, i) => `Slot ${i + 1}`)\<close> calls the function on the
  indices 0 to n - 1.
\<close>

definition slotLabels :: "int \<Rightarrow> string list" where
  "slotLabels sessions =
     map (\<lambda>i. ''Slot '' @ string_of_int (i + 1)) [0..sessions - 1]"

definition generatePrompt ::
  "GradeCounts \<Rightarrow> int \<Rightarrow> int \<Rightarrow> DayOfWeek list \<Rightarrow> int \<Rightarrow> string" where
  "generatePrompt counts mx sessions days rooms =
     (let classList =
            join newline
              (map (\<lambda>(grade, count).
                      ''- Grade '' @ string_of_nat grade @ '': '' @ string_of_int count
                      @ '' classes'')
                 counts);
          timeSlotList = join '', '' (slotLabels sessions);
          dayList = join '', '' (map day_name days)
      in promptIntro rooms classList @ dayList @ promptSlotsIntro sessions
         @ timeSlotList @ promptRules mx)"

section \<open>The response (geminiService.ts, generateTimetable)\<close>

text \<open>A value that \<^verbatim>\<open>JSON.parse\<close> returns. The payload of a number is never looked at.\<close>

datatype json =
    JNull
  | JBool bool
  | JNum int
  | JStr string
  | JArr "json list"
  | JObj "(string \<times> json) list"

text \<open>A thrown value: an instance of \<^verbatim>\<open>Error\<close> with its message, or anything else.\<close>

datatype thrown = ErrorObj string | OtherValue

text \<open>
  What the collaborator's part of the \<^verbatim>\<open>try\<close> block comes to: the call, reading
  \<^verbatim>\<open>response.text\<close> and \<^verbatim>\<open>JSON.parse\<close> either throw or give the parsed value.
\<close>

datatype ai_outcome = Throws thrown | Parsed json

type_synonym collaborator = "string \<Rightarrow> Schema \<Rightarrow> ai_outcome"

text \<open>\<^verbatim>\<open>typeof v === 'object' && v !== null\<close>: an object or an array.\<close>

fun isObject :: "json \<Rightarrow> bool" where
  "isObject (JObj _) = True"
| "isObject (JArr _) = True"
| "isObject _ = False"

text \<open>
  \<^verbatim>\<open>Object.keys(v)\<close>: the keys of an object, the indices of an array or of a string, none
  for a number or a boolean. On \<^verbatim>\<open>null\<close> it throws; the test above comes first in the
  condition, so it is never called there.
\<close>

fun Object_keys :: "json \<Rightarrow> string list" where
  "Object_keys (JObj kvs) = map fst kvs"
| "Object_keys (JArr xs) = map string_of_nat [0..<length xs]"
| "Object_keys (JStr s) = map string_of_nat [0..<length s]"
| "Object_keys _ = []"

definition invalidFormatMessage :: string where
  "invalidFormatMessage =
     ''Invalid timetable format received from API. Expected a structure with rooms.''"

definition tryBody :: "ai_outcome \<Rightarrow> int \<Rightarrow> thrown + json" where
  "tryBody outcome rooms =
     (case outcome of
        Throws t \<Rightarrow> Inl t
      | Parsed parsedData \<Rightarrow>
          if isObject parsedData \<and> int (length (Object_keys parsedData)) = rooms
          then Inr parsedData
          else Inl (ErrorObj invalidFormatMessage))"

definition catchBlock :: "thrown \<Rightarrow> thrown" where
  "catchBlock e =
     (case e of
        ErrorObj message \<Rightarrow> ErrorObj (''Failed to generate timetable: '' @ message)
      | OtherValue \<Rightarrow> ErrorObj ''An unknown error occurred while generating the timetable.'')"

definition generateTimetable ::
  "GradeCounts \<Rightarrow> int \<Rightarrow> int \<Rightarrow> DayOfWeek list \<Rightarrow> int \<Rightarrow> collaborator \<Rightarrow> thrown + json" where
  "generateTimetable counts mx sessions days rooms ai =
     (let prompt = generatePrompt counts mx sessions days
                     rooms;
          schema = generateResponseSchema sessions days rooms
      in case tryBody (ai prompt schema) rooms of
           Inr result \<Rightarrow> Inr result
         | Inl e \<Rightarrow> Inl (catchBlock e))"

section \<open>Generating (App.tsx, handleGenerateClick)\<close>

text \<open>
  The handler from the click to the end of its \<^verbatim>\<open>finally\<close> block. The three cells are
  set before the request goes out; the timetable cell then holds \<^verbatim>\<open>null\<close> until a result
  is stored.
\<close>

definition handleGenerateClick :: "json AppState \<Rightarrow> collaborator \<Rightarrow> json AppState" where
  "handleGenerateClick st ai =
     (if \<not> canGenerate st then st
      else
        let st1 = st\<lparr>isLoading := True, error := None, timetable := None\<rparr>
        in (case generateTimetable (gradeCounts st) (maxConcurrentClasses st)
                   (sessionsPerDay st) (includedDays st) (numberOfRooms st) ai of
              Inr result \<Rightarrow> st1\<lparr>timetable := Some result, isLoading := False\<rparr>
            | Inl (ErrorObj message) \<Rightarrow> st1\<lparr>error := Some message, isLoading := False\<rparr>
            | Inl OtherValue \<Rightarrow>
                st1\<lparr>error := Some ''An unexpected error occurred.'', isLoading := False\<rparr>))"

section \<open>Reading the definitions\<close>

text \<open>The number that a string of decimal digits writes; it undoes \<open>string_of_nat\<close>.\<close>

definition nat_of_string :: "string \<Rightarrow> nat" where
  "nat_of_string s = foldl (\<lambda>acc c. 10 * acc + digit_value c) 0 s"

text \<open>
  The regular expression of \<^verbatim>\<open>getGradeFromClassName\<close> matches at index \<open>i\<close> of a name: the
  six characters from \<open>i\<close> are \<^verbatim>\<open>Grade \<close> with its space, and the next one is a digit.
\<close>

definition gradeAt :: "string \<Rightarrow> nat \<Rightarrow> bool" where
  "gradeAt name i =
     (take 6 (drop i name) = ''Grade '' \<and> i + 6 < length name \<and> is_digit (name ! (i + 6)))"

text \<open>
  The reading of the grade in which only the first occurrence of \<^verbatim>\<open>Grade \<close> counts, whatever
  follows it: \<open>firstOccurrence p s\<close> is the first index at which \<open>p\<close> occurs in \<open>s\<close>, and
  \<open>digitAfterFirstGrade\<close> reads the character after that occurrence when it is a digit.
\<close>

fun firstOccurrence :: "string \<Rightarrow> string \<Rightarrow> nat option" where
  "firstOccurrence p [] = (if p = [] then Some 0 else None)"
| "firstOccurrence p (c # cs) =
     (if take (length p) (c # cs) = p then Some 0
      else map_option Suc (firstOccurrence p cs))"

definition digitAfterFirstGrade :: "string \<Rightarrow> Grade option" where
  "digitAfterFirstGrade name =
     (case firstOccurrence ''Grade '' name of
        None \<Rightarrow> None
      | Some i \<Rightarrow>
          if i + 6 < length name \<and> is_digit (name ! (i + 6))
          then Some (digit_value (name ! (i + 6))) else None)"

section \<open>Example values\<close>

text \<open>A one-room timetable of two days with two slots each, and states that hold it.\<close>

definition exampleTimetable :: MultiRoomTimetable where
  "exampleTimetable =
     [(''Room 1'',
        [(Monday, [(''Slot 1'', [''Grade 1 - A'', ''Grade 3 - A'']), (''Slot 2'', [''Grade 2 - A''])]),
         (Tuesday, [(''Slot 1'', [''Assembly'']), (''Slot 2'', [''Grade 5 - A''])])])]"

definition exampleState :: "int \<Rightarrow> MultiRoomTimetable AppState" where
  "exampleState mx =
     initialState\<lparr>maxConcurrentClasses := mx, includedDays := [Monday, Tuesday],
                  timetable := Some exampleTimetable\<rparr>"

definition slotAt :: "DayOfWeek \<Rightarrow> nat \<Rightarrow> Loc" where
  "slotAt d n = \<lparr>room = ''Room 1'', day = d, slot = ''Slot '' @ string_of_nat n\<rparr>"

text \<open>
  A state in which generation is permitted and a response is already held, and two
  collaborators: one answers with an object of two rooms, one with an empty object.
\<close>

definition exampleResponse :: json where
  "exampleResponse =
     JObj [(''Room 1'', JObj [(''Monday'', JObj [(''Slot 1'', JArr [JStr ''Grade 1 - A'']),
                                                  (''Slot 2'', JArr [JStr ''Grade 1 - B''])])])]"

definition exampleGenState :: "json AppState" where
  "exampleGenState =
     initialState\<lparr>gradeCounts := [(1, 2), (2, 0), (3, 0), (4, 0), (5, 0)],
                  includedDays := [Monday], timetable := Some exampleResponse\<rparr>"

definition twoRoomsCollaborator :: collaborator where
  "twoRoomsCollaborator prompt schema =
     Parsed (JObj [(''Room 1'', JObj []), (''Room 2'', JObj [])])"

definition emptyObjectCollaborator :: collaborator where
  "emptyObjectCollaborator prompt schema = Parsed (JObj [])"

section \<open>Association lists and slots\<close>

lemma map_of_modify:
  "map_of (modify k f ps) k' = (if k' = k then map_option f (map_of ps k) else map_of ps k')"
  by (induction ps) auto

lemma lookup_slot_modify_slot:
  "lookup_slot (modify_slot l f tt) l' =
     (if l' = l then map_option f (lookup_slot tt l) else lookup_slot tt l')"
proof (cases "room l' = room l")
  case False
  then show ?thesis
    by (auto simp: lookup_slot_def modify_slot_def map_of_modify)
next
  case r: True
  show ?thesis
  proof (cases "day l' = day l")
    case False
    with r show ?thesis
      by (auto simp: lookup_slot_def modify_slot_def map_of_modify split: option.splits)
  next
    case d: True
    show ?thesis
    proof (cases "slot l' = slot l")
      case False
      with r d show ?thesis
        by (auto simp: lookup_slot_def modify_slot_def map_of_modify split: option.splits)
    next
      case True
      with r d have "l' = l" by simp
      then show ?thesis
        by (auto simp: lookup_slot_def modify_slot_def map_of_modify split: option.splits)
    qed
  qed
qed

text \<open>Entries of an association list under a reading h of its values.\<close>

lemma mset_modify:
  assumes "map_of ps k = Some v"
  shows "mset (concat (map (\<lambda>p. h (snd p)) (modify k f ps))) + mset (h v)
         = mset (concat (map (\<lambda>p. h (snd p)) ps)) + mset (h (f v))"
  using assms by (induction ps) (auto split: if_splits)

lemma mset_all_classes_modify_slot:
  assumes "lookup_slot tt l = Some xs"
  shows "mset (all_classes (modify_slot l f tt)) + mset xs = mset (all_classes tt) + mset (f xs)"
proof -
  from assms obtain days slots where
    r: "map_of tt (room l) = Some days" and d: "map_of days (day l) = Some slots"
    and s: "map_of slots (slot l) = Some xs"
    by (auto simp: lookup_slot_def split: option.splits)
  let ?slots' = "modify (slot l) f slots"
  let ?days' = "modify (day l) (modify (slot l) f) days"
  have 1: "mset (day_classes ?slots') + mset xs = mset (day_classes slots) + mset (f xs)"
    unfolding day_classes_def using mset_modify [OF s, of "\<lambda>x. x" f] by simp
  have 2: "mset (room_classes ?days') + mset (day_classes slots)
           = mset (room_classes days) + mset (day_classes ?slots')"
    unfolding room_classes_def using mset_modify [OF d, of day_classes] by simp
  have 3: "mset (all_classes (modify_slot l f tt)) + mset (room_classes days)
           = mset (all_classes tt) + mset (room_classes ?days')"
    unfolding all_classes_def modify_slot_def using mset_modify [OF r, of room_classes] by simp
  let ?A' = "mset (all_classes (modify_slot l f tt))" and ?A = "mset (all_classes tt)"
  let ?R = "mset (room_classes days)" and ?R' = "mset (room_classes ?days')"
  let ?D = "mset (day_classes slots)" and ?D' = "mset (day_classes ?slots')"
  have "(?A' + mset xs) + (?R + ?R' + ?D + ?D') = (?A' + ?R) + (?R' + ?D) + (?D' + mset xs)"
    by (simp only: ac_simps)
  also have "\<dots> = (?A + ?R') + (?R + ?D') + (?D + mset (f xs))"
    by (simp only: 1 2 3)
  also have "\<dots> = (?A + mset (f xs)) + (?R + ?R' + ?D + ?D')"
    by (simp only: ac_simps)
  finally show ?thesis
    by (simp only: add_right_cancel)
qed

section \<open>The branches of a move\<close>

lemma Loc_eq_iff: "((l::Loc) = l') = (room l = room l' \<and> day l = day l' \<and> slot l = slot l')"
  by (cases l, cases l') simp

lemma handleMoveClass_unfold:
  assumes "from \<noteq> to" and "timetable st = Some tt"
  shows "handleMoveClass st c from to =
     (case snd (moveClass (maxConcurrentClasses st) c from to tt) of
        None \<Rightarrow> st\<lparr>timetable := Some (fst (moveClass (maxConcurrentClasses st) c from to tt))\<rparr>
      | Some e \<Rightarrow> st\<lparr>timetable := Some (fst (moveClass (maxConcurrentClasses st) c from to tt)),
                      error := e\<rparr>)"
  using assms by (auto simp: handleMoveClass_def Loc_eq_iff split: prod.splits option.splits)

lemma grade_checks_eq:
  "((mg = Some 1 \<and> Some 2 \<in> set dg) \<or> (mg = Some 2 \<and> Some 1 \<in> set dg)
    \<or> (mg = Some 3 \<and> Some 4 \<in> set dg) \<or> (mg = Some 4 \<and> Some 3 \<in> set dg))
   = coSchedulingConflict mg dg"
  by (auto simp: coSchedulingConflict_def Let_def)

lemma moveClass_rejected_fst:
  "snd (moveClass mx c from to tt) \<noteq> Some None \<Longrightarrow> fst (moveClass mx c from to tt) = tt"
  by (auto simp: moveClass_def Let_def split: option.splits if_splits)

lemma moveClass_full:
  assumes "lookup_slot tt to = Some occ" "c \<notin> set occ" "mx \<le> int (length occ)"
  shows "moveClass mx c from to tt = (tt, Some (Some (fullMessage c to mx)))"
  using assms by (simp add: moveClass_def)

lemma moveClass_conflict:
  assumes "lookup_slot tt to = Some occ" "c \<notin> set occ" "int (length occ) < mx"
    and "coSchedulingConflict (getGradeFromClassName c) (map getGradeFromClassName occ)"
  shows "moveClass mx c from to tt =
     (tt, Some (Some (if getGradeFromClassName c = Some 1 \<or> getGradeFromClassName c = Some 2
                      then grade12Message else grade34Message)))"
  using assms by (auto simp: moveClass_def Let_def coSchedulingConflict_def)

lemma moveClass_applied:
  assumes "lookup_slot tt to = Some occ" "c \<notin> set occ" "int (length occ) < mx"
    and "\<not> coSchedulingConflict (getGradeFromClassName c) (map getGradeFromClassName occ)"
    and "lookup_slot tt from = Some src" "c \<in> set src"
  shows "moveClass mx c from to tt =
     (modify_slot to (\<lambda>cs. sort (cs @ [c])) (modify_slot from (remove1 c) tt), Some None)"
  using assms by (auto simp: moveClass_def Let_def coSchedulingConflict_def)

lemma moveClass_applied_iff:
  "snd (moveClass mx c from to tt) = Some None \<longleftrightarrow>
     (\<exists>occ src. lookup_slot tt to = Some occ \<and> c \<notin> set occ \<and> int (length occ) < mx
        \<and> \<not> coSchedulingConflict (getGradeFromClassName c) (map getGradeFromClassName occ)
        \<and> lookup_slot tt from = Some src \<and> c \<in> set src)"
  by (auto simp: moveClass_def Let_def coSchedulingConflict_def split: option.splits if_splits)

lemma mset_slot_subset:
  assumes "lookup_slot tt l = Some xs"
  shows "mset xs \<subseteq># mset (all_classes tt)"
proof -
  from mset_all_classes_modify_slot [OF assms, of "\<lambda>_. []"]
  have "mset (all_classes (modify_slot l (\<lambda>_. []) tt)) + mset xs = mset (all_classes tt)"
    by simp
  then show ?thesis
    by (metis mset_subset_eq_add_right)
qed

lemma mset_all_classes_move:
  assumes "from \<noteq> to" "lookup_slot tt to = Some occ" "lookup_slot tt from = Some src"
    "c \<in> set src"
  shows "mset (all_classes (modify_slot to (\<lambda>cs. sort (cs @ [c]))
                             (modify_slot from (remove1 c) tt)))
         = mset (all_classes tt)"
proof -
  let ?t1 = "modify_slot from (remove1 c) tt"
  let ?t2 = "modify_slot to (\<lambda>cs. sort (cs @ [c])) ?t1"
  have 1: "mset (all_classes ?t1) + mset src = mset (all_classes tt) + mset (remove1 c src)"
    by (rule mset_all_classes_modify_slot [OF assms(3)])
  have src: "mset src = mset (remove1 c src) + {#c#}"
    using assms(4) by simp
  have a1: "mset (all_classes ?t1) + {#c#} = mset (all_classes tt)"
  proof -
    from 1 have "(mset (all_classes ?t1) + {#c#}) + mset (remove1 c src)
                 = mset (all_classes tt) + mset (remove1 c src)"
      by (simp only: src ac_simps)
    then show ?thesis by (simp only: add_right_cancel)
  qed
  have "lookup_slot ?t1 to = Some occ"
    using assms(1,2) by (simp add: lookup_slot_modify_slot)
  from mset_all_classes_modify_slot [OF this, of "\<lambda>cs. sort (cs @ [c])"]
  have "mset (all_classes ?t2) + mset occ = mset (all_classes ?t1) + (mset occ + {#c#})"
    by simp
  then have "mset (all_classes ?t2) + mset occ = (mset (all_classes ?t1) + {#c#}) + mset occ"
    by (simp only: ac_simps)
  then have "mset (all_classes ?t2) = mset (all_classes ?t1) + {#c#}"
    by (simp only: add_right_cancel)
  with a1 show ?thesis by simp
qed

lemma count_slot_le:
  assumes "lookup_slot tt l = Some xs"
  shows "count_list xs c \<le> count_list (all_classes tt) c"
proof -
  have "mset xs \<subseteq># mset (all_classes tt)"
    by (rule mset_slot_subset [OF assms])
  then have "count (mset xs) c \<le> count (mset (all_classes tt)) c"
    by (rule mset_subset_eq_count)
  then show ?thesis by (simp only: count_mset)
qed

lemma slot_member_all:
  assumes "lookup_slot tt l = Some xs" and "c \<in> set xs"
  shows "c \<in> set (all_classes tt)"
proof -
  have "mset xs \<subseteq># mset (all_classes tt)"
    by (rule mset_slot_subset [OF assms(1)])
  moreover have "c \<in># mset xs" using assms(2) by simp
  ultimately have "c \<in># mset (all_classes tt)" by (rule mset_subset_eqD)
  then show ?thesis by simp
qed

lemma count_list_distinct_member:
  "distinct xs \<Longrightarrow> c \<in> set xs \<Longrightarrow> count_list xs c = 1"
  by (induction xs) auto

lemma count_list_mset_eq:
  assumes "mset xs = mset ys"
  shows "count_list xs c = count_list ys c"
proof -
  have "count (mset xs) c = count (mset ys) c" by (simp only: assms)
  then show ?thesis by (simp only: count_mset)
qed

lemma notin_remove1_count:
  "count_list xs c \<le> 1 \<Longrightarrow> c \<notin> set (remove1 c xs)"
proof (induction xs)
  case Nil
  show ?case by simp
next
  case (Cons x xs)
  show ?case
  proof (cases "x = c")
    case True
    with Cons.prems have "count_list xs c = 0" by simp
    then have "c \<notin> set xs" by (simp add: count_list_0_iff)
    with True show ?thesis by simp
  next
    case False
    with Cons show ?thesis by simp
  qed
qed

lemma count_list_sort_snoc:
  "count_list (sort (xs @ [c])) c = count_list xs c + 1"
proof -
  have "count (mset (sort (xs @ [c]))) c = count (mset xs) c + 1" by simp
  then show ?thesis by (simp only: count_mset)
qed

lemma handleMoveClass_rejected_timetable:
  assumes "timetable st = Some tt"
    and "snd (moveClass (maxConcurrentClasses st) c from to tt) \<noteq> Some None"
  shows "timetable (handleMoveClass st c from to) = Some tt"
proof (cases "from = to")
  case True
  then show ?thesis by (simp add: handleMoveClass_def assms(1))
next
  case False
  have "fst (moveClass (maxConcurrentClasses st) c from to tt) = tt"
    by (rule moveClass_rejected_fst [OF assms(2)])
  then show ?thesis
    by (simp add: handleMoveClass_unfold [OF False assms(1)] split: option.splits)
qed

lemma conflict_not_applied:
  assumes "lookup_slot tt to = Some occ"
    and "coSchedulingConflict (getGradeFromClassName c) (map getGradeFromClassName occ)"
  shows "snd (moveClass mx c from to tt) \<noteq> Some None"
  using assms by (simp add: moveClass_applied_iff)

lemma no_grade_no_conflict:
  assumes "getGradeFromClassName c = None \<or> (\<forall>n\<in>set occ. getGradeFromClassName n = None)"
  shows "\<not> coSchedulingConflict (getGradeFromClassName c) (map getGradeFromClassName occ)"
  using assms by (auto simp: coSchedulingConflict_def Let_def)

section \<open>Moving a class onto its own slot\<close>

text \<open>
  C5. A move whose source room, day and slot are those of its destination changes
  nothing: the state after \<^verbatim>\<open>handleMoveClass\<close> is the state before it, timetable and
  error message included.
\<close>

theorem handleMoveClass_same_slot:
  "handleMoveClass st className l l = st"
  by (simp add: handleMoveClass_def)

section \<open>An accepted move relocates one class\<close>

text \<open>
  C1. Take a timetable in which every class name occurs once, and a move that
  \<^verbatim>\<open>handleMoveClass\<close> accepts and applies: source and destination differ, the destination
  slot is present, does not hold the class, is below the maximum and has no grade conflict
  with it, and the source slot is present and holds the class. Then the timetable after the
  move has as many class entries as before (indeed the same entries, as a multiset), and
  the moved class occurs once in it: once in the destination slot and not in the source
  slot.
\<close>

theorem accepted_move_relocates:
  assumes "distinct (all_classes tt)" and "timetable st = Some tt" and "from \<noteq> to"
    and "lookup_slot tt to = Some occ" and "c \<notin> set occ"
    and "int (length occ) < maxConcurrentClasses st"
    and "\<not> coSchedulingConflict (getGradeFromClassName c) (map getGradeFromClassName occ)"
    and "lookup_slot tt from = Some src" and "c \<in> set src"
  shows "\<exists>tt'. timetable (handleMoveClass st c from to) = Some tt'
           \<and> length (all_classes tt') = length (all_classes tt)
           \<and> mset (all_classes tt') = mset (all_classes tt)
           \<and> count_list (all_classes tt') c = 1
           \<and> (\<exists>occ'. lookup_slot tt' to = Some occ' \<and> count_list occ' c = 1)
           \<and> (\<exists>src'. lookup_slot tt' from = Some src' \<and> c \<notin> set src')"
proof -
  let ?tt' = "modify_slot to (\<lambda>cs. sort (cs @ [c])) (modify_slot from (remove1 c) tt)"
  have mv: "moveClass (maxConcurrentClasses st) c from to tt = (?tt', Some None)"
    by (rule moveClass_applied [OF assms(4,5,6,7,8,9)])
  have res: "timetable (handleMoveClass st c from to) = Some ?tt'"
    by (simp add: handleMoveClass_unfold [OF assms(3,2)] mv)
  have ms: "mset (all_classes ?tt') = mset (all_classes tt)"
    by (rule mset_all_classes_move [OF assms(3,4,8,9)])
  then have len: "length (all_classes ?tt') = length (all_classes tt)"
    by (rule mset_eq_length)
  have "c \<in> set (all_classes tt)"
    by (rule slot_member_all [OF assms(8,9)])
  with assms(1) have one: "count_list (all_classes tt) c = 1"
    by (rule count_list_distinct_member)
  have cnt: "count_list (all_classes ?tt') c = 1"
    using count_list_mset_eq [OF ms, of c] one by simp
  have to': "lookup_slot ?tt' to = Some (sort (occ @ [c]))"
    using assms(3,4) by (simp add: lookup_slot_modify_slot)
  have "count_list occ c = 0"
    using assms(5) by simp
  then have cto: "count_list (sort (occ @ [c])) c = 1"
    by (simp add: count_list_sort_snoc)
  have from': "lookup_slot ?tt' from = Some (remove1 c src)"
    using assms(3,8) by (simp add: lookup_slot_modify_slot)
  have "count_list src c \<le> 1"
    using count_slot_le [OF assms(8), of c] one by simp
  then have cfrom: "c \<notin> set (remove1 c src)"
    by (rule notin_remove1_count)
  show ?thesis
  proof (intro exI conjI)
    show "timetable (handleMoveClass st c from to) = Some ?tt'" by (rule res)
    show "length (all_classes ?tt') = length (all_classes tt)" by (rule len)
    show "mset (all_classes ?tt') = mset (all_classes tt)" by (rule ms)
    show "count_list (all_classes ?tt') c = 1" by (rule cnt)
    show "lookup_slot ?tt' to = Some (sort (occ @ [c]))" by (rule to')
    show "count_list (sort (occ @ [c])) c = 1" by (rule cto)
    show "lookup_slot ?tt' from = Some (remove1 c src)" by (rule from')
    show "c \<notin> set (remove1 c src)" by (rule cfrom)
  qed
qed

theorem accepted_move_relocates_witness:
  "\<exists>tt'. timetable (handleMoveClass (exampleState 3) ''Grade 3 - A'' (slotAt Monday 1)
                       (slotAt Monday 2)) = Some tt'
           \<and> length (all_classes tt') = length (all_classes exampleTimetable)
           \<and> mset (all_classes tt') = mset (all_classes exampleTimetable)
           \<and> count_list (all_classes tt') ''Grade 3 - A'' = 1
           \<and> (\<exists>occ'. lookup_slot tt' (slotAt Monday 2) = Some occ'
                  \<and> count_list occ' ''Grade 3 - A'' = 1)
           \<and> (\<exists>src'. lookup_slot tt' (slotAt Monday 1) = Some src'
                  \<and> ''Grade 3 - A'' \<notin> set src')"
proof -
  have 1: "distinct (all_classes exampleTimetable)" by code_simp
  have 2: "timetable (exampleState 3) = Some exampleTimetable" by code_simp
  have 3: "slotAt Monday 1 \<noteq> slotAt Monday 2" by code_simp
  have 4: "lookup_slot exampleTimetable (slotAt Monday 2) = Some [''Grade 2 - A'']" by code_simp
  have 5: "''Grade 3 - A'' \<notin> set [''Grade 2 - A'']" by code_simp
  have 6: "int (length [''Grade 2 - A'']) < maxConcurrentClasses (exampleState 3)" by code_simp
  have 7: "\<not> coSchedulingConflict (getGradeFromClassName ''Grade 3 - A'')
               (map getGradeFromClassName [''Grade 2 - A''])" by code_simp
  have 8: "lookup_slot exampleTimetable (slotAt Monday 1) = Some [''Grade 1 - A'', ''Grade 3 - A'']"
    by code_simp
  have 9: "''Grade 3 - A'' \<in> set [''Grade 1 - A'', ''Grade 3 - A'']" by code_simp
  show ?thesis
    by (rule accepted_move_relocates [OF 1 2 3 4 5 6 7 8 9])
qed

section \<open>A full destination\<close>

text \<open>
  C3. A move between different slots, into a slot that is present, does not hold the class
  and has at least \<^verbatim>\<open>maxConcurrentClasses\<close> occupants, is rejected: the timetable stays as it
  is and the error message is the capacity message, which names the slot, the room and the
  day of the destination.
\<close>

theorem move_into_full_slot_rejected:
  assumes "from \<noteq> to" and "timetable st = Some tt" and "lookup_slot tt to = Some occ"
    and "c \<notin> set occ" and "maxConcurrentClasses st \<le> int (length occ)"
  shows "timetable (handleMoveClass st c from to) = Some tt
       \<and> handleMoveClass st c from to =
           st\<lparr>error := Some (''Cannot move '' @ dquote @ c @ dquote @ ''. The '' @ dquote
                  @ slot to @ dquote @ '' slot in '' @ room to @ '' on '' @ day_name (day to)
                  @ '' is full (max '' @ string_of_int (maxConcurrentClasses st)
                  @ '' classes).'')\<rparr>"
  using assms
  by (simp add: handleMoveClass_unfold [OF assms(1,2)] moveClass_full [OF assms(3,4,5)]
        fullMessage_def)

theorem move_into_full_slot_rejected_witness:
  "handleMoveClass (exampleState 1) ''Grade 5 - A'' (slotAt Tuesday 2) (slotAt Monday 2) =
     (exampleState 1)\<lparr>error := Some (''Cannot move '' @ dquote @ ''Grade 5 - A'' @ dquote
        @ ''. The '' @ dquote @ ''Slot 2'' @ dquote
        @ '' slot in Room 1 on Monday is full (max 1 classes).'')\<rparr>"
proof -
  have 1: "slotAt Tuesday 2 \<noteq> slotAt Monday 2" by code_simp
  have 2: "timetable (exampleState 1) = Some exampleTimetable" by code_simp
  have 3: "lookup_slot exampleTimetable (slotAt Monday 2) = Some [''Grade 2 - A'']" by code_simp
  have 4: "''Grade 5 - A'' \<notin> set [''Grade 2 - A'']" by code_simp
  have 5: "maxConcurrentClasses (exampleState 1) \<le> int (length [''Grade 2 - A''])" by code_simp
  have 6: "slot (slotAt Monday 2) = ''Slot 2''" "room (slotAt Monday 2) = ''Room 1''"
    "day (slotAt Monday 2) = Monday" "string_of_int 1 = ''1''"
    "maxConcurrentClasses (exampleState 1) = 1"
    by code_simp+
  from move_into_full_slot_rejected [OF 1 2 3 4 5] show ?thesis
    by (simp add: 6)
qed

section \<open>Grade exclusion\<close>

text \<open>
  C4. A move of a class of grade 1 into a slot with an occupant of grade 2, of grade 2
  onto grade 1, of grade 3 onto grade 4 or of grade 4 onto grade 3 leaves the timetable
  unchanged, the drop is shown as invalid while dragging, and when the move gets as far as
  the grade check the error message is the one of the pair. A class name with no grade, or
  a destination whose occupants have none, never meets these rules: a move that passes the
  other checks is applied and clears the error message.
\<close>

theorem grade_exclusion_on_move:
  "(timetable st = Some tt \<and> lookup_slot tt to = Some occ
      \<and> ((getGradeFromClassName c = Some 1 \<and> Some 2 \<in> set (map getGradeFromClassName occ))
         \<or> (getGradeFromClassName c = Some 2 \<and> Some 1 \<in> set (map getGradeFromClassName occ))
         \<or> (getGradeFromClassName c = Some 3 \<and> Some 4 \<in> set (map getGradeFromClassName occ))
         \<or> (getGradeFromClassName c = Some 4 \<and> Some 3 \<in> set (map getGradeFromClassName occ)))
    \<longrightarrow> timetable (handleMoveClass st c from to) = Some tt
        \<and> \<not> isValidDrop (maxConcurrentClasses st) c occ
        \<and> (from \<noteq> to \<and> c \<notin> set occ \<and> int (length occ) < maxConcurrentClasses st
             \<longrightarrow> error (handleMoveClass st c from to) =
                   Some (if getGradeFromClassName c = Some 1 \<or> getGradeFromClassName c = Some 2
                         then grade12Message else grade34Message)))
   \<and> (timetable st = Some tt \<and> lookup_slot tt to = Some occ
      \<and> (getGradeFromClassName c = None \<or> (\<forall>n\<in>set occ. getGradeFromClassName n = None))
      \<and> from \<noteq> to \<and> c \<notin> set occ \<and> int (length occ) < maxConcurrentClasses st
      \<and> lookup_slot tt from = Some src \<and> c \<in> set src
    \<longrightarrow> isValidDrop (maxConcurrentClasses st) c occ
        \<and> handleMoveClass st c from to =
            st\<lparr>timetable := Some (modify_slot to (\<lambda>cs. sort (cs @ [c]))
                                     (modify_slot from (remove1 c) tt)),
                error := None\<rparr>)"
proof (intro conjI impI; (elim conjE)?)
  assume tt: "timetable st = Some tt" and occ: "lookup_slot tt to = Some occ"
    and g: "(getGradeFromClassName c = Some 1 \<and> Some 2 \<in> set (map getGradeFromClassName occ))
         \<or> (getGradeFromClassName c = Some 2 \<and> Some 1 \<in> set (map getGradeFromClassName occ))
         \<or> (getGradeFromClassName c = Some 3 \<and> Some 4 \<in> set (map getGradeFromClassName occ))
         \<or> (getGradeFromClassName c = Some 4 \<and> Some 3 \<in> set (map getGradeFromClassName occ))"
  from g have cf: "coSchedulingConflict (getGradeFromClassName c) (map getGradeFromClassName occ)"
    by (simp only: grade_checks_eq)
  show "timetable (handleMoveClass st c from to) = Some tt"
    by (rule handleMoveClass_rejected_timetable [OF tt conflict_not_applied [OF occ cf]])
  show "\<not> isValidDrop (maxConcurrentClasses st) c occ"
    using cf by (simp add: isValidDrop_def)
  assume ne: "from \<noteq> to" and "c \<notin> set occ" and "int (length occ) < maxConcurrentClasses st"
  then show "error (handleMoveClass st c from to) =
       Some (if getGradeFromClassName c = Some 1 \<or> getGradeFromClassName c = Some 2
             then grade12Message else grade34Message)"
    using moveClass_conflict [OF occ _ _ cf, of "maxConcurrentClasses st" "from"]
    by (simp add: handleMoveClass_unfold [OF ne tt])
next
  assume tt: "timetable st = Some tt" and occ: "lookup_slot tt to = Some occ"
    and g: "getGradeFromClassName c = None \<or> (\<forall>n\<in>set occ. getGradeFromClassName n = None)"
    and ne: "from \<noteq> to" and c: "c \<notin> set occ"
    and len: "int (length occ) < maxConcurrentClasses st"
    and src: "lookup_slot tt from = Some src" and csrc: "c \<in> set src"
  have nc: "\<not> coSchedulingConflict (getGradeFromClassName c) (map getGradeFromClassName occ)"
    by (rule no_grade_no_conflict [OF g])
  show "isValidDrop (maxConcurrentClasses st) c occ"
    using nc len by (simp add: isValidDrop_def)
  show "handleMoveClass st c from to =
     st\<lparr>timetable := Some (modify_slot to (\<lambda>cs. sort (cs @ [c]))
                              (modify_slot from (remove1 c) tt)),
         error := None\<rparr>"
    by (simp add: handleMoveClass_unfold [OF ne tt] moveClass_applied [OF occ c len nc src csrc])
qed

theorem grade_exclusion_on_move_witness:
  "timetable (handleMoveClass (exampleState 3) ''Grade 1 - A'' (slotAt Monday 1) (slotAt Monday 2))
     = Some exampleTimetable
   \<and> error (handleMoveClass (exampleState 3) ''Grade 1 - A'' (slotAt Monday 1) (slotAt Monday 2))
     = Some grade12Message
   \<and> \<not> isValidDrop 3 ''Grade 1 - A'' [''Grade 2 - A'']
   \<and> isValidDrop 3 ''Assembly'' [''Grade 2 - A'']
   \<and> error (handleMoveClass (exampleState 3) ''Assembly'' (slotAt Tuesday 1) (slotAt Monday 2))
     = None"
proof -
  have mx: "maxConcurrentClasses (exampleState 3) = 3" by code_simp
  have g1: "getGradeFromClassName ''Grade 1 - A'' = Some 1" by code_simp
  have a: "timetable (exampleState 3) = Some exampleTimetable
      \<and> lookup_slot exampleTimetable (slotAt Monday 2) = Some [''Grade 2 - A'']
      \<and> ((getGradeFromClassName ''Grade 1 - A'' = Some 1
             \<and> Some 2 \<in> set (map getGradeFromClassName [''Grade 2 - A'']))
         \<or> (getGradeFromClassName ''Grade 1 - A'' = Some 2
             \<and> Some 1 \<in> set (map getGradeFromClassName [''Grade 2 - A'']))
         \<or> (getGradeFromClassName ''Grade 1 - A'' = Some 3
             \<and> Some 4 \<in> set (map getGradeFromClassName [''Grade 2 - A'']))
         \<or> (getGradeFromClassName ''Grade 1 - A'' = Some 4
             \<and> Some 3 \<in> set (map getGradeFromClassName [''Grade 2 - A''])))"
    by code_simp
  have b: "slotAt Monday 1 \<noteq> slotAt Monday 2 \<and> ''Grade 1 - A'' \<notin> set [''Grade 2 - A'']
      \<and> int (length [''Grade 2 - A'']) < maxConcurrentClasses (exampleState 3)"
    by code_simp
  have c: "timetable (exampleState 3) = Some exampleTimetable
      \<and> lookup_slot exampleTimetable (slotAt Monday 2) = Some [''Grade 2 - A'']
      \<and> (getGradeFromClassName ''Assembly'' = None
          \<or> (\<forall>n\<in>set [''Grade 2 - A'']. getGradeFromClassName n = None))
      \<and> slotAt Tuesday 1 \<noteq> slotAt Monday 2 \<and> ''Assembly'' \<notin> set [''Grade 2 - A'']
      \<and> int (length [''Grade 2 - A'']) < maxConcurrentClasses (exampleState 3)
      \<and> lookup_slot exampleTimetable (slotAt Tuesday 1) = Some [''Assembly'']
      \<and> ''Assembly'' \<in> set [''Assembly'']"
    by code_simp
  note first = grade_exclusion_on_move [of "exampleState 3" exampleTimetable "slotAt Monday 2"
      "[''Grade 2 - A'']" "''Grade 1 - A''" "slotAt Monday 1", THEN conjunct1, THEN mp, OF a]
  note second = grade_exclusion_on_move [of "exampleState 3" exampleTimetable "slotAt Monday 2"
      "[''Grade 2 - A'']" "''Assembly''" "slotAt Tuesday 1" "[''Assembly'']",
      THEN conjunct2, THEN mp, OF c]
  have 1: "timetable (handleMoveClass (exampleState 3) ''Grade 1 - A''
      (slotAt Monday 1) (slotAt Monday 2)) = Some exampleTimetable"
    by (rule first [THEN conjunct1])
  have 2: "\<not> isValidDrop 3 ''Grade 1 - A'' [''Grade 2 - A'']"
    using first [THEN conjunct2, THEN conjunct1] by (simp add: mx)
  have 3: "error (handleMoveClass (exampleState 3) ''Grade 1 - A''
      (slotAt Monday 1) (slotAt Monday 2)) = Some grade12Message"
    using first [THEN conjunct2, THEN conjunct2, THEN mp, OF b, unfolded g1] by simp
  have 4: "isValidDrop 3 ''Assembly'' [''Grade 2 - A'']"
    using second [THEN conjunct1] by (simp add: mx)
  have 5: "error (handleMoveClass (exampleState 3) ''Assembly'' (slotAt Tuesday 1)
      (slotAt Monday 2)) = None"
    using second [THEN conjunct2] by simp
  from 1 2 3 4 5 show ?thesis by (intro conjI)
qed

section \<open>Validation of the response\<close>

text \<open>
  C6. When the value parsed from the response has a number of top-level keys that differs
  from the room count, \<^verbatim>\<open>generateTimetable\<close> throws the error of the content check,
  rewrapped by its \<^verbatim>\<open>catch\<close> block, and returns no timetable.
\<close>

theorem wrong_key_count_rejected:
  assumes "ai (generatePrompt counts mx sessions days rooms)
              (generateResponseSchema sessions days rooms) = Parsed parsedData"
    and "int (length (Object_keys parsedData)) \<noteq> rooms"
  shows "generateTimetable counts mx sessions days rooms ai =
           Inl (ErrorObj (''Failed to generate timetable: Invalid timetable format received ''
                          @ ''from API. Expected a structure with rooms.''))
       \<and> (\<forall>result. generateTimetable counts mx sessions days rooms ai \<noteq> Inr result)"
  using assms
  by (simp add: generateTimetable_def tryBody_def catchBlock_def invalidFormatMessage_def)

theorem wrong_key_count_rejected_witness:
  "generateTimetable [(1, 2)] 3 2 [Monday] 1 twoRoomsCollaborator =
     Inl (ErrorObj (''Failed to generate timetable: Invalid timetable format received ''
                    @ ''from API. Expected a structure with rooms.''))
   \<and> (\<forall>result. generateTimetable [(1, 2)] 3 2 [Monday] 1 twoRoomsCollaborator \<noteq> Inr result)"
proof -
  have 1: "twoRoomsCollaborator (generatePrompt [(1, 2)] 3 2 [Monday] 1)
             (generateResponseSchema 2 [Monday] 1)
           = Parsed (JObj [(''Room 1'', JObj []), (''Room 2'', JObj [])])"
    by (simp add: twoRoomsCollaborator_def)
  have 2: "int (length (Object_keys (JObj [(''Room 1'', JObj []), (''Room 2'', JObj [])]))) \<noteq> 1"
    by simp
  show ?thesis by (rule wrong_key_count_rejected [where ai = twoRoomsCollaborator, OF 1 2])
qed

section \<open>The timetable after a failed content check\<close>

text \<open>
  C2, as the code has it. When generation is permitted and the parsed response fails the
  content check, the handler ends with the message of that check in the error cell, the
  loading flag off and the timetable cell \<^verbatim>\<open>null\<close>: the cell is cleared before the request
  goes out, so a timetable held before the click is not kept.
\<close>

theorem content_failure_clears_timetable:
  assumes "canGenerate st"
    and "ai (generatePrompt (gradeCounts st) (maxConcurrentClasses st) (sessionsPerDay st)
               (includedDays st) (numberOfRooms st))
            (generateResponseSchema (sessionsPerDay st) (includedDays st) (numberOfRooms st))
         = Parsed parsedData"
    and "\<not> (isObject parsedData \<and> int (length (Object_keys parsedData)) = numberOfRooms st)"
  shows "handleGenerateClick st ai =
           st\<lparr>isLoading := False, timetable := None,
               error := Some (''Failed to generate timetable: Invalid timetable format ''
                              @ ''received from API. Expected a structure with rooms.'')\<rparr>"
  using assms
  by (simp add: handleGenerateClick_def generateTimetable_def tryBody_def catchBlock_def
        invalidFormatMessage_def Let_def)

theorem content_failure_clears_timetable_witness:
  "handleGenerateClick exampleGenState emptyObjectCollaborator =
     exampleGenState\<lparr>isLoading := False, timetable := None,
        error := Some (''Failed to generate timetable: Invalid timetable format ''
                       @ ''received from API. Expected a structure with rooms.'')\<rparr>"
proof -
  have 1: "canGenerate exampleGenState"
    by (simp add: exampleGenState_def initialState_def canGenerate_def
        totalClasses_def maxPossibleClasses_def GRADES_def DAYS_OF_WEEK_def)
  have 2: "emptyObjectCollaborator
             (generatePrompt (gradeCounts exampleGenState) (maxConcurrentClasses exampleGenState)
                (sessionsPerDay exampleGenState) (includedDays exampleGenState)
                (numberOfRooms exampleGenState))
             (generateResponseSchema (sessionsPerDay exampleGenState)
                (includedDays exampleGenState) (numberOfRooms exampleGenState))
           = Parsed (JObj [])"
    by (simp add: emptyObjectCollaborator_def)
  have 3: "\<not> (isObject (JObj []) \<and> int (length (Object_keys (JObj []))) = numberOfRooms exampleGenState)"
    by (simp add: exampleGenState_def initialState_def)
  show ?thesis
    by (rule content_failure_clears_timetable [where ai = emptyObjectCollaborator, OF 1 2 3])
qed

text \<open>
  C2 as stated says that the timetable cell is left as it was before the request. In
  \<open>exampleGenState\<close> generation is permitted and a timetable is held; the collaborator
  answers with an empty object, the content check fails, and the cell is \<^verbatim>\<open>null\<close>
  afterwards.
\<close>

theorem content_failure_keeps_timetable_counterexample:
  "canGenerate exampleGenState
   \<and> generateTimetable (gradeCounts exampleGenState) (maxConcurrentClasses exampleGenState)
        (sessionsPerDay exampleGenState) (includedDays exampleGenState)
        (numberOfRooms exampleGenState) emptyObjectCollaborator
      = Inl (ErrorObj (''Failed to generate timetable: '' @ invalidFormatMessage))
   \<and> timetable exampleGenState = Some exampleResponse
   \<and> timetable (handleGenerateClick exampleGenState emptyObjectCollaborator) = None
   \<and> timetable (handleGenerateClick exampleGenState emptyObjectCollaborator)
       \<noteq> timetable exampleGenState"
  by (simp add: handleGenerateClick_def generateTimetable_def tryBody_def catchBlock_def
        emptyObjectCollaborator_def exampleGenState_def initialState_def canGenerate_def
        totalClasses_def maxPossibleClasses_def Let_def GRADES_def DAYS_OF_WEEK_def)

section \<open>When generation is permitted\<close>

text \<open>
  C9. \<^verbatim>\<open>canGenerate\<close> holds only when the sum of the grade counts is positive, at least one
  day is active and the sum is at most \<^verbatim>\<open>maxConcurrentClasses\<close> times the number of active
  days times \<^verbatim>\<open>sessionsPerDay\<close> times \<^verbatim>\<open>numberOfRooms\<close>. When one of the three fails,
  \<^verbatim>\<open>canGenerate\<close> is false, which disables the button, and \<^verbatim>\<open>handleGenerateClick\<close> does
  nothing.
\<close>

theorem generation_gate:
  "(canGenerate st \<longrightarrow>
      0 < sum_list (map snd (gradeCounts st)) \<and> includedDays st \<noteq> []
      \<and> sum_list (map snd (gradeCounts st))
          \<le> maxConcurrentClasses st * int (length (includedDays st)) * sessionsPerDay st
              * numberOfRooms st)
   \<and> (\<not> (0 < sum_list (map snd (gradeCounts st)) \<and> includedDays st \<noteq> []
         \<and> sum_list (map snd (gradeCounts st))
             \<le> maxConcurrentClasses st * int (length (includedDays st)) * sessionsPerDay st
                 * numberOfRooms st)
      \<longrightarrow> \<not> canGenerate st \<and> handleGenerateClick st ai = st)"
proof -
  have "foldl (\<lambda>sum count. sum + count) a xs = a + sum_list xs" for a :: int and xs
    by (induction xs arbitrary: a) auto
  then have "totalClasses st = sum_list (map snd (gradeCounts st))"
    by (simp add: totalClasses_def)
  then show ?thesis
    by (auto simp: canGenerate_def maxPossibleClasses_def handleGenerateClick_def)
qed

theorem generation_gate_witness:
  "canGenerate exampleGenState
   \<and> \<not> canGenerate (exampleGenState\<lparr>includedDays := []\<rparr>)
   \<and> handleGenerateClick (exampleGenState\<lparr>includedDays := []\<rparr>) emptyObjectCollaborator
       = exampleGenState\<lparr>includedDays := []\<rparr>"
proof -
  have 1: "\<not> (0 < sum_list (map snd (gradeCounts (exampleGenState\<lparr>includedDays := []\<rparr>)))
      \<and> includedDays (exampleGenState\<lparr>includedDays := []\<rparr>) \<noteq> []
      \<and> sum_list (map snd (gradeCounts (exampleGenState\<lparr>includedDays := []\<rparr>)))
          \<le> maxConcurrentClasses (exampleGenState\<lparr>includedDays := []\<rparr>)
             * int (length (includedDays (exampleGenState\<lparr>includedDays := []\<rparr>)))
             * sessionsPerDay (exampleGenState\<lparr>includedDays := []\<rparr>)
             * numberOfRooms (exampleGenState\<lparr>includedDays := []\<rparr>))"
    by simp
  have 2: "canGenerate exampleGenState"
    by (simp add: exampleGenState_def initialState_def canGenerate_def
        totalClasses_def maxPossibleClasses_def GRADES_def DAYS_OF_WEEK_def)
  from generation_gate [of "exampleGenState\<lparr>includedDays := []\<rparr>" emptyObjectCollaborator,
      THEN conjunct2, THEN mp, OF 1] 2
  show ?thesis by simp
qed

section \<open>The weekdays in calendar order\<close>

lemma indexOf_DAYS_OF_WEEK:
  "indexOf DAYS_OF_WEEK Monday = 0" "indexOf DAYS_OF_WEEK Tuesday = 1"
  "indexOf DAYS_OF_WEEK Wednesday = 2" "indexOf DAYS_OF_WEEK Thursday = 3"
  "indexOf DAYS_OF_WEEK Friday = 4"
  by (simp_all add: DAYS_OF_WEEK_def)

lemma inj_indexOf_DAYS_OF_WEEK: "inj (indexOf DAYS_OF_WEEK)"
proof (rule injI)
  fix x y :: DayOfWeek
  assume "indexOf DAYS_OF_WEEK x = indexOf DAYS_OF_WEEK y"
  then show "x = y"
    by (cases x; cases y; simp add: indexOf_DAYS_OF_WEEK)
qed

lemma set_DAYS_OF_WEEK: "d \<in> set DAYS_OF_WEEK"
  by (cases d) (simp_all add: DAYS_OF_WEEK_def)

lemma sorted_DAYS_OF_WEEK: "sorted (map (indexOf DAYS_OF_WEEK) DAYS_OF_WEEK)"
  by (simp add: DAYS_OF_WEEK_def)

lemma distinct_DAYS_OF_WEEK: "distinct DAYS_OF_WEEK"
  by (simp add: DAYS_OF_WEEK_def)

lemma toggleDay_sorted: "sorted (map (indexOf DAYS_OF_WEEK) (toggleDay prev d))"
  by (simp add: toggleDay_def Let_def sorted_sort_key)

lemma toggleDay_distinct: "distinct prev \<Longrightarrow> distinct (toggleDay prev d)"
  by (simp add: toggleDay_def Let_def)

lemma calendar_order_unique:
  assumes "distinct ds" and "sorted (map (indexOf DAYS_OF_WEEK) ds)"
  shows "ds = filter (\<lambda>d. d \<in> set ds) DAYS_OF_WEEK"
proof -
  let ?idx = "indexOf DAYS_OF_WEEK"
  let ?cal = "filter (\<lambda>d. d \<in> set ds) DAYS_OF_WEEK"
  have inj: "inj_on ?idx A" for A
    using inj_indexOf_DAYS_OF_WEEK by (rule inj_on_subset) simp
  have s1: "sorted (map ?idx ?cal)"
    using sorted_DAYS_OF_WEEK by (rule sorted_filter)
  have d1: "distinct (map ?idx ?cal)"
    using distinct_DAYS_OF_WEEK by (simp add: distinct_map inj)
  have d2: "distinct (map ?idx ds)"
    using assms(1) by (simp add: distinct_map inj)
  have "set ?cal = set ds"
    using set_DAYS_OF_WEEK by auto
  then have e: "set (map ?idx ds) = set (map ?idx ?cal)"
    by simp
  have "map ?idx ds = map ?idx ?cal"
    by (rule sorted_distinct_set_unique [OF assms(2) d2 s1 d1 e])
  then show ?thesis
    by (simp only: inj_map_eq_map [OF inj_indexOf_DAYS_OF_WEEK])
qed

lemma foldl_handleDayToggle_distinct:
  "distinct (includedDays st) \<Longrightarrow> distinct (includedDays (foldl handleDayToggle st ds))"
  by (induction ds arbitrary: st) (simp_all add: handleDayToggle_def toggleDay_distinct)

lemma foldl_handleDayToggle_sorted:
  "sorted (map (indexOf DAYS_OF_WEEK) (includedDays st))
   \<Longrightarrow> sorted (map (indexOf DAYS_OF_WEEK) (includedDays (foldl handleDayToggle st ds)))"
  by (induction ds arbitrary: st) (simp_all add: handleDayToggle_def toggleDay_sorted)

text \<open>
  C8. After any sequence of calls of \<^verbatim>\<open>handleDayToggle\<close> from the initial state, the list of
  active days has no duplicates, holds only the five weekdays and is sorted by the index
  in \<^verbatim>\<open>DAYS_OF_WEEK\<close>: it is the calendar list restricted to the days it holds, whatever the
  order of the toggles.
\<close>

theorem toggled_days_in_calendar_order:
  "distinct (includedDays (foldl handleDayToggle (initialState :: 'tt AppState) ds))
   \<and> set (includedDays (foldl handleDayToggle (initialState :: 'tt AppState) ds))
       \<subseteq> {Monday, Tuesday, Wednesday, Thursday, Friday}
   \<and> sorted (map (indexOf DAYS_OF_WEEK)
               (includedDays (foldl handleDayToggle (initialState :: 'tt AppState) ds)))
   \<and> includedDays (foldl handleDayToggle (initialState :: 'tt AppState) ds)
       = filter (\<lambda>d. d \<in> set (includedDays
                             (foldl handleDayToggle (initialState :: 'tt AppState) ds)))
           [Monday, Tuesday, Wednesday, Thursday, Friday]"
proof -
  let ?ds = "includedDays (foldl handleDayToggle (initialState :: 'tt AppState) ds)"
  have d: "distinct ?ds"
    by (rule foldl_handleDayToggle_distinct) (simp add: initialState_def distinct_DAYS_OF_WEEK)
  have s: "sorted (map (indexOf DAYS_OF_WEEK) ?ds)"
    by (rule foldl_handleDayToggle_sorted) (simp add: initialState_def sorted_DAYS_OF_WEEK)
  have sub: "set ?ds \<subseteq> {Monday, Tuesday, Wednesday, Thursday, Friday}"
    using set_DAYS_OF_WEEK by (auto simp: DAYS_OF_WEEK_def)
  have "?ds = filter (\<lambda>d. d \<in> set ?ds) DAYS_OF_WEEK"
    by (rule calendar_order_unique [OF d s])
  then have c: "?ds = filter (\<lambda>d. d \<in> set ?ds) [Monday, Tuesday, Wednesday, Thursday, Friday]"
    by (simp only: DAYS_OF_WEEK_def)
  from d sub s c show ?thesis by (intro conjI)
qed

section \<open>The brief and the shape descriptor\<close>

lemma digit_value_digit_char:
  assumes "k < 10"
  shows "digit_value (digit_char k) = k"
proof -
  from assms have "k = 0 \<or> k = 1 \<or> k = 2 \<or> k = 3 \<or> k = 4 \<or> k = 5 \<or> k = 6 \<or> k = 7
      \<or> k = 8 \<or> k = 9"
    by arith
  then show ?thesis
    by (elim disjE) (simp_all add: digit_char_def digit_value_def)
qed

lemma nat_of_string_snoc:
  "nat_of_string (s @ [c]) = 10 * nat_of_string s + digit_value c"
  by (simp add: nat_of_string_def)

lemma nat_of_string_string_of_nat: "nat_of_string (string_of_nat n) = n"
proof (induction n rule: string_of_nat.induct)
  case (1 n)
  show ?case
  proof (cases "n < 10")
    case True
    then have "string_of_nat n = [digit_char n]" by (simp add: string_of_nat.simps [of n])
    then show ?thesis
      using digit_value_digit_char [OF True] by (simp add: nat_of_string_def)
  next
    case False
    then have eq: "string_of_nat n = string_of_nat (n div 10) @ [digit_char (n mod 10)]"
      by (simp add: string_of_nat.simps [of n])
    have "nat_of_string (string_of_nat (n div 10)) = n div 10"
      using False by (rule "1.IH")
    then have "nat_of_string (string_of_nat n) = 10 * (n div 10) + n mod 10"
      by (simp only: eq nat_of_string_snoc) (simp add: digit_value_digit_char)
    then show ?thesis by simp
  qed
qed

lemma inj_string_of_nat: "inj string_of_nat"
  by (rule inj_on_inverseI [where g = nat_of_string]) (rule nat_of_string_string_of_nat)

lemma string_of_int_eq_iff:
  assumes "0 \<le> i" and "0 \<le> j"
  shows "(string_of_int i = string_of_int j) = (i = j)"
proof -
  have "(string_of_nat (nat i) = string_of_nat (nat j)) = (nat i = nat j)"
    by (rule inj_eq [OF inj_string_of_nat])
  with assms show ?thesis
    by (auto simp: string_of_int_def)
qed

lemma join_contains:
  "x \<in> set xs \<Longrightarrow> \<exists>pre post. join sep xs = pre @ x @ post"
proof (induction sep xs rule: join.induct)
  case (1 sep)
  then show ?case by simp
next
  case (2 sep y)
  then have "join sep [y] = [] @ x @ []" by simp
  then show ?case by blast
next
  case (3 sep y z zs)
  show ?case
  proof (cases "x = y")
    case True
    then have "join sep (y # z # zs) = [] @ x @ (sep @ join sep (z # zs))" by simp
    then show ?thesis by blast
  next
    case False
    with "3.prems" have "x \<in> set (z # zs)" by simp
    then obtain pre post where "join sep (z # zs) = pre @ x @ post"
      using "3.IH" by blast
    then have "join sep (y # z # zs) = (y @ sep @ pre) @ x @ post" by simp
    then show ?thesis by blast
  qed
qed

lemma assign_fresh:
  "k \<notin> fst ` set ps \<Longrightarrow> assign k v ps = ps @ [(k, v)]"
  by (induction ps) auto

lemma foldl_assign_loop:
  assumes "distinct (map name is)" and "\<forall>i\<in>set is. name i \<notin> fst ` set props"
  shows "foldl (\<lambda>(props, req) i. (assign (name i) v props, req @ [name i])) (props, req) is
         = (props @ map (\<lambda>i. (name i, v)) is, req @ map name is)"
  using assms
proof (induction "is" arbitrary: props req)
  case Nil
  show ?case by simp
next
  case (Cons i "is")
  have fresh: "name i \<notin> fst ` set props"
    using Cons.prems(2) by simp
  have d: "distinct (map name is)"
    using Cons.prems(1) by simp
  have f: "\<forall>j\<in>set is. name j \<notin> fst ` set (props @ [(name i, v)])"
    using Cons.prems by (force simp: image_iff)
  show ?case
    using Cons.IH [OF d f, of "req @ [name i]"] by (simp add: assign_fresh [OF fresh])
qed

lemma distinct_room_names: "distinct (map (\<lambda>i. ''Room '' @ string_of_int i) [1..n])"
proof -
  have "inj_on (\<lambda>i. ''Room '' @ string_of_int i) (set [1..n])"
    by (rule inj_onI) (simp add: string_of_int_eq_iff)
  then show ?thesis
    by (simp add: distinct_map)
qed

lemma generateResponseSchema_eq:
  "generateResponseSchema sessions days rooms =
     OBJECT (map (\<lambda>i. (''Room '' @ string_of_int i, generateSingleRoomResponseSchema sessions days))
               [1..rooms])
            (map (\<lambda>i. ''Room '' @ string_of_int i) [1..rooms])"
  using foldl_assign_loop [OF distinct_room_names, where props = "[]" and req = "[]"
      and v = "generateSingleRoomResponseSchema sessions days" and n1 = rooms]
  by (simp add: generateResponseSchema_def Let_def)

lemma generatePrompt_contains_day:
  assumes "d \<in> set days"
  shows "\<exists>pre post. generatePrompt counts mx sessions days rooms = pre @ day_name d @ post"
proof -
  from assms have "day_name d \<in> set (map day_name days)" by simp
  then obtain a b where "join '', '' (map day_name days) = a @ day_name d @ b"
    using join_contains by blast
  then have "generatePrompt counts mx sessions days rooms =
      (promptIntro rooms (join newline
          (map (\<lambda>(grade, count). ''- Grade '' @ string_of_nat grade @ '': ''
                  @ string_of_int count @ '' classes'') counts)) @ a)
      @ day_name d
      @ (b @ promptSlotsIntro sessions @ join '', '' (slotLabels sessions) @ promptRules mx)"
    by (simp add: generatePrompt_def Let_def)
  then show ?thesis by blast
qed

lemma slot_label_member:
  assumes "1 \<le> i" and "i \<le> sessions"
  shows "''Slot '' @ string_of_int i \<in> set (slotLabels sessions)"
  unfolding slotLabels_def set_map
  by (rule image_eqI [where x = "i - 1"]) (use assms in simp_all)

lemma generatePrompt_contains_slot:
  assumes "1 \<le> i" and "i \<le> sessions"
  shows "\<exists>pre post. generatePrompt counts mx sessions days rooms
           = pre @ (''Slot '' @ string_of_int i) @ post"
proof -
  have "''Slot '' @ string_of_int i \<in> set (slotLabels sessions)"
    by (rule slot_label_member [OF assms])
  then obtain a b where
    "join '', '' (slotLabels sessions) = a @ (''Slot '' @ string_of_int i) @ b"
    using join_contains by blast
  then have "generatePrompt counts mx sessions days rooms =
      (promptIntro rooms (join newline
          (map (\<lambda>(grade, count). ''- Grade '' @ string_of_nat grade @ '': ''
                  @ string_of_int count @ '' classes'') counts))
       @ join '', '' (map day_name days) @ promptSlotsIntro sessions @ a)
      @ (''Slot '' @ string_of_int i)
      @ (b @ promptRules mx)"
    by (simp add: generatePrompt_def Let_def)
  then show ?thesis by blast
qed

text \<open>
  C7. For a positive number of sessions, a positive number of rooms and a list of active
  days that is not empty, the text of \<^verbatim>\<open>generatePrompt\<close> contains the name of every active
  day and every label from \<^verbatim>\<open>Slot 1\<close> to the last slot, and the descriptor of
  \<^verbatim>\<open>generateResponseSchema\<close> is an object whose properties are \<^verbatim>\<open>Room 1\<close> to the last room,
  one each and all with the same room descriptor, whose required list is the list of its
  keys, and whose number of keys is the room count.
\<close>

theorem request_names_days_slots_rooms:
  assumes "0 < sessions" and "0 < rooms" and "days \<noteq> []"
  shows "(\<forall>d\<in>set days. \<exists>pre post.
            generatePrompt counts mx sessions days rooms = pre @ day_name d @ post)
       \<and> (\<forall>i\<in>{1..sessions}. \<exists>pre post.
            generatePrompt counts mx sessions days rooms
              = pre @ (''Slot '' @ string_of_int i) @ post)
       \<and> (\<exists>roomSchema. generateResponseSchema sessions days rooms
            = OBJECT (map (\<lambda>i. (''Room '' @ string_of_int i, roomSchema)) [1..rooms])
                     (map (\<lambda>i. ''Room '' @ string_of_int i) [1..rooms]))
       \<and> distinct (map fst (properties (generateResponseSchema sessions days rooms)))
       \<and> required (generateResponseSchema sessions days rooms)
           = map fst (properties (generateResponseSchema sessions days rooms))
       \<and> int (length (properties (generateResponseSchema sessions days rooms))) = rooms"
proof (intro conjI ballI)
  fix d assume "d \<in> set days"
  then show "\<exists>pre post. generatePrompt counts mx sessions days rooms = pre @ day_name d @ post"
    by (rule generatePrompt_contains_day)
next
  fix i assume "i \<in> {1..sessions}"
  then have "1 \<le> i" and "i \<le> sessions" by simp_all
  then show "\<exists>pre post. generatePrompt counts mx sessions days rooms
      = pre @ (''Slot '' @ string_of_int i) @ post"
    by (rule generatePrompt_contains_slot)
next
  show "\<exists>roomSchema. generateResponseSchema sessions days rooms
      = OBJECT (map (\<lambda>i. (''Room '' @ string_of_int i, roomSchema)) [1..rooms])
               (map (\<lambda>i. ''Room '' @ string_of_int i) [1..rooms])"
    using generateResponseSchema_eq by blast
next
  have "map fst (properties (generateResponseSchema sessions days rooms))
        = map (\<lambda>i. ''Room '' @ string_of_int i) [1..rooms]"
    by (simp add: generateResponseSchema_eq comp_def)
  then show "distinct (map fst (properties (generateResponseSchema sessions days rooms)))"
    by (simp only: distinct_room_names)
next
  show "required (generateResponseSchema sessions days rooms)
      = map fst (properties (generateResponseSchema sessions days rooms))"
    by (simp add: generateResponseSchema_eq comp_def)
next
  show "int (length (properties (generateResponseSchema sessions days rooms))) = rooms"
    using assms(2) by (simp add: generateResponseSchema_eq)
qed

theorem request_names_days_slots_rooms_witness:
  "(\<exists>pre post. generatePrompt [(1, 2), (2, 0), (3, 0), (4, 0), (5, 0)] 3 2 [Monday] 1
       = pre @ ''Monday'' @ post)
   \<and> (\<exists>pre post. generatePrompt [(1, 2), (2, 0), (3, 0), (4, 0), (5, 0)] 3 2 [Monday] 1
       = pre @ ''Slot 1'' @ post)
   \<and> (\<exists>pre post. generatePrompt [(1, 2), (2, 0), (3, 0), (4, 0), (5, 0)] 3 2 [Monday] 1
       = pre @ ''Slot 2'' @ post)
   \<and> map fst (properties (generateResponseSchema 2 [Monday] 1)) = [''Room 1'']
   \<and> required (generateResponseSchema 2 [Monday] 1) = [''Room 1'']
   \<and> int (length (properties (generateResponseSchema 2 [Monday] 1))) = 1"
proof -
  have h: "(0::int) < 2" "(0::int) < 1" "[Monday] \<noteq> []" by simp_all
  note t = request_names_days_slots_rooms [OF h,
      of "[(1, 2), (2, 0), (3, 0), (4, 0), (5, 0)]" 3]
  have s1: "''Slot '' @ string_of_int 1 = ''Slot 1''" by code_simp
  have s2: "''Slot '' @ string_of_int 2 = ''Slot 2''" by code_simp
  have r: "map (\<lambda>i. ''Room '' @ string_of_int i) [1..1] = [''Room 1'']" by code_simp
  have 1: "\<exists>pre post. generatePrompt [(1, 2), (2, 0), (3, 0), (4, 0), (5, 0)] 3 2 [Monday] 1
       = pre @ ''Monday'' @ post"
    using t [THEN conjunct1, THEN bspec, of Monday] by simp
  have 2: "\<exists>pre post. generatePrompt [(1, 2), (2, 0), (3, 0), (4, 0), (5, 0)] 3 2 [Monday] 1
       = pre @ ''Slot 1'' @ post"
    using t [THEN conjunct2, THEN conjunct1, THEN bspec, of 1] by (simp only: s1) simp
  have 3: "\<exists>pre post. generatePrompt [(1, 2), (2, 0), (3, 0), (4, 0), (5, 0)] 3 2 [Monday] 1
       = pre @ ''Slot 2'' @ post"
    using t [THEN conjunct2, THEN conjunct1, THEN bspec, of 2] by (simp only: s2) simp
  obtain roomSchema where o: "generateResponseSchema 2 [Monday] 1
      = OBJECT (map (\<lambda>i. (''Room '' @ string_of_int i, roomSchema)) [1..1])
               (map (\<lambda>i. ''Room '' @ string_of_int i) [1..1])"
    using t [THEN conjunct2, THEN conjunct2, THEN conjunct1] by blast
  have 5: "required (generateResponseSchema 2 [Monday] 1) = [''Room 1'']"
    by (simp only: o Schema.sel r)
  have 4: "map fst (properties (generateResponseSchema 2 [Monday] 1)) = [''Room 1'']"
    using t [THEN conjunct2, THEN conjunct2, THEN conjunct2, THEN conjunct2, THEN conjunct1] 5
    by simp
  have 6: "int (length (properties (generateResponseSchema 2 [Monday] 1))) = 1"
    by (rule t [THEN conjunct2, THEN conjunct2, THEN conjunct2, THEN conjunct2, THEN conjunct2])
  from 1 2 3 4 5 6 show ?thesis by (intro conjI)
qed

section \<open>The grade of a name\<close>

lemma matchGradeHere_drop:
  "matchGradeHere (drop i name) =
     (if gradeAt name i then Some (digit_value (name ! (i + 6))) else None)"
proof (cases "i + 6 < length name")
  case True
  have "drop 6 (drop i name) = drop (i + 6) name"
    by (simp add: add.commute)
  also have "\<dots> = name ! (i + 6) # drop (Suc (i + 6)) name"
    by (rule Cons_nth_drop_Suc [OF True, symmetric])
  finally show ?thesis
    using True by (simp add: gradeAt_def)
next
  case False
  then have "drop 6 (drop i name) = []" by simp
  then show ?thesis
    using False by (simp add: gradeAt_def)
qed

lemma gradeAt_Cons_Suc: "gradeAt (c # cs) (Suc i) = gradeAt cs i"
  by (simp add: gradeAt_def add.commute)

lemma matchGradeHere_0:
  "matchGradeHere name = (if gradeAt name 0 then Some (digit_value (name ! 6)) else None)"
  using matchGradeHere_drop [of 0 name] by simp

lemma getGrade_first_match:
  "gradeAt name i \<Longrightarrow> (\<forall>j<i. \<not> gradeAt name j)
   \<Longrightarrow> getGradeFromClassName name = Some (digit_value (name ! (i + 6)))"
proof (induction name arbitrary: i)
  case Nil
  then show ?case by (simp add: gradeAt_def)
next
  case (Cons c cs)
  show ?case
  proof (cases i)
    case 0
    with Cons.prems(1) show ?thesis
      by (simp only: getGradeFromClassName.simps matchGradeHere_0) simp
  next
    case (Suc k)
    with Cons.prems have no0: "\<not> gradeAt (c # cs) 0" by blast
    from Suc Cons.prems(1) have k: "gradeAt cs k" by (simp add: gradeAt_Cons_Suc)
    have "\<forall>j<k. \<not> gradeAt cs j"
    proof (intro allI impI)
      fix j assume "j < k"
      then have "Suc j < i" using Suc by simp
      with Cons.prems(2) have "\<not> gradeAt (c # cs) (Suc j)" by blast
      then show "\<not> gradeAt cs j" by (simp add: gradeAt_Cons_Suc)
    qed
    with k have "getGradeFromClassName cs = Some (digit_value (cs ! (k + 6)))"
      by (rule Cons.IH)
    with no0 Suc show ?thesis
      by (simp only: getGradeFromClassName.simps matchGradeHere_0) (simp add: add.commute)
  qed
qed

lemma getGrade_None_iff:
  "(getGradeFromClassName name = None) = (\<forall>i. \<not> gradeAt name i)"
proof (induction name)
  case Nil
  show ?case by (simp add: gradeAt_def)
next
  case (Cons c cs)
  have split: "(\<forall>i. \<not> gradeAt (c # cs) i) = (\<not> gradeAt (c # cs) 0 \<and> (\<forall>i. \<not> gradeAt cs i))"
  proof
    assume a: "\<forall>i. \<not> gradeAt (c # cs) i"
    then have "\<forall>i. \<not> gradeAt (c # cs) (Suc i)" by blast
    with a show "\<not> gradeAt (c # cs) 0 \<and> (\<forall>i. \<not> gradeAt cs i)"
      by (simp add: gradeAt_Cons_Suc)
  next
    assume a: "\<not> gradeAt (c # cs) 0 \<and> (\<forall>i. \<not> gradeAt cs i)"
    show "\<forall>i. \<not> gradeAt (c # cs) i"
    proof
      fix i show "\<not> gradeAt (c # cs) i"
        using a by (cases i) (simp_all add: gradeAt_Cons_Suc)
    qed
  qed
  show ?case
    by (simp only: getGradeFromClassName.simps matchGradeHere_0 split Cons.IH [symmetric])
       (simp split: option.splits)
qed

text \<open>
  C10, as the code has it. The grade is the digit that follows the first occurrence of
  \<^verbatim>\<open>Grade \<close> that is followed by a digit, wherever in the name it is, and there is no grade
  exactly when no occurrence of \<^verbatim>\<open>Grade \<close> is followed by a digit. So \<^verbatim>\<open>Grade 12 - A\<close> has
  grade 1 and \<^verbatim>\<open>Extra Grade 3 prep\<close> has grade 3.
\<close>

theorem grade_is_digit_of_first_match:
  "(gradeAt name i \<and> (\<forall>j<i. \<not> gradeAt name j)
      \<longrightarrow> getGradeFromClassName name = Some (digit_value (name ! (i + 6))))
   \<and> ((getGradeFromClassName name = None) = (\<forall>i. \<not> gradeAt name i))"
  using getGrade_first_match [of name i] getGrade_None_iff [of name] by blast

theorem grade_is_digit_of_first_match_witness:
  "getGradeFromClassName ''Extra Grade 3 prep'' = Some 3
   \<and> getGradeFromClassName ''Grade 12 - A'' = Some 1"
proof -
  have a: "gradeAt ''Extra Grade 3 prep'' 6
      \<and> (\<forall>j\<in>set [0..<6]. \<not> gradeAt ''Extra Grade 3 prep'' j)"
    by code_simp
  then have a': "gradeAt ''Extra Grade 3 prep'' 6 \<and> (\<forall>j<6. \<not> gradeAt ''Extra Grade 3 prep'' j)"
    by simp
  have b: "gradeAt ''Grade 12 - A'' 0 \<and> (\<forall>j<0. \<not> gradeAt ''Grade 12 - A'' j)"
    by (simp add: gradeAt_def is_digit_def)
  have v: "digit_value (''Extra Grade 3 prep'' ! (6 + 6)) = 3"
    "digit_value (''Grade 12 - A'' ! (0 + 6)) = 1"
    by code_simp+
  from grade_is_digit_of_first_match [of "''Extra Grade 3 prep''" 6, THEN conjunct1, THEN mp, OF a']
    grade_is_digit_of_first_match [of "''Grade 12 - A''" 0, THEN conjunct1, THEN mp, OF b]
  show ?thesis by (simp only: v)
qed

text \<open>
  C10 as stated takes the digit after the first occurrence of \<^verbatim>\<open>Grade \<close>. In
  \<^verbatim>\<open>Grade X Grade 3\<close> the first occurrence is at index 0 and is followed by \<^verbatim>\<open>X\<close>, so that
  reading finds no digit there; the regular expression goes on to the second occurrence
  and the grade is 3.
\<close>

theorem grade_after_first_Grade_counterexample:
  "firstOccurrence ''Grade '' ''Grade X Grade 3'' = Some 0
   \<and> ''Grade X Grade 3'' ! (0 + 6) = CHR ''X''
   \<and> digitAfterFirstGrade ''Grade X Grade 3'' = None
   \<and> getGradeFromClassName ''Grade X Grade 3'' = Some 3
   \<and> getGradeFromClassName ''Grade X Grade 3'' \<noteq> digitAfterFirstGrade ''Grade X Grade 3''"
  by code_simp

end
